theory Spec2Isabelle
  imports Main "HOL-Library.Multiset" "HOL-Library.Sublist" "HOL-Library.Product_Lexorder"
begin

section \<open>Data model\<close>

text \<open>
  The rows of the seven tables, with the columns the pages select. Identifiers are
  strings (UUIDs in the store). Column \<open>id\<close> is prefixed per table, since a record
  field is a constant of its own: \<open>t_\<close> tests, \<open>v_\<close> test\_versions, \<open>q_\<close> questions,
  \<open>o_\<close> options, \<open>l_\<close> test\_links, \<open>s_\<close> submissions, \<open>a_\<close> answers. A column typed
  \<open>T | null\<close> in the source is a \<open>T option\<close>.
\<close>

type_synonym ident = string

datatype QuestionKind = SINGLE | TEXT

record TestRow =
  t_id :: ident
  t_title :: string
  t_slug :: string
  t_description :: "string option"

record TestVersionRow =
  v_id :: ident
  v_test_id :: ident
  v_version :: "int option"
  v_published_at :: "int option"

record QuestionRow =
  q_id :: ident
  q_test_version_id :: ident
  q_kind :: QuestionKind
  q_text :: string
  q_ord :: "int option"

record OptionRow =
  o_id :: ident
  o_question_id :: ident
  o_text :: string
  o_ord :: "int option"

record TestLinkRow =
  l_id :: ident
  l_test_version_id :: ident
  l_public_id :: string
  l_is_active :: bool

record SubmissionRow =
  s_id :: ident
  s_test_version_id :: ident
  s_participant :: string
  s_created_at :: string

record AnswerRow =
  a_submission_id :: ident
  a_question_id :: ident
  a_option_id :: "ident option"
  a_free_text :: "string option"

section \<open>JavaScript primitives used by the pages\<close>


text \<open>The double quote character and the line feed.\<close>

definition dquote :: char where
  "dquote = CHR 0x22"


section \<open>Statistics view (TestStatsPage)\<close>

text \<open>
  \<open>latestSubmissions\<close>: a copy of the filtered submissions sorted with the comparator
  \<open>new Date(b.created_at).getTime() - new Date(a.created_at).getTime()\<close> and cut by
  \<open>slice(0, 20)\<close>. \<open>Array.prototype.sort\<close> is stable, and the comparator is the
  difference of a key, so the sort is the stable sort on the negated time. The parameter
  \<open>getTime\<close> is \<open>new Date(s).getTime()\<close> in milliseconds on the store's timestamps.
\<close>

definition latestSubmissions ::
  "(string \<Rightarrow> int) \<Rightarrow> bool \<Rightarrow> SubmissionRow list \<Rightarrow> SubmissionRow list" where
  "latestSubmissions getTime isAuthorized filteredSubmissions =
     (if \<not> isAuthorized then []
      else let sorted = sort_key (\<lambda>s. - getTime (s_created_at s)) filteredSubmissions
           in take 20 sorted)"









section \<open>The store\<close>

text \<open>
  The remote store, as the seven tables. Every query may fail: the parameter
  \<open>fails\<close> of the operations below says which statements the store rejects, and a
  rejected statement leaves the store as it is. Each operation sends a statement of a
  given kind on a given table at most once, so a statement is named by both.
\<close>

record Store =
  db_tests :: "TestRow list"
  db_test_versions :: "TestVersionRow list"
  db_questions :: "QuestionRow list"
  db_options :: "OptionRow list"
  db_test_links :: "TestLinkRow list"
  db_submissions :: "SubmissionRow list"
  db_answers :: "AnswerRow list"

datatype Table = Tests | TestVersions | Questions | Options | TestLinks | Submissions | Answers

datatype Call = Select Table | Insert Table | Delete Table

text \<open>
  What a load throws: the store's error for a rejected statement, the client's
  row-count error (code PGRST116) of \<open>single()\<close> and \<open>maybeSingle()\<close>, or the pages'
  own error for a test without a version. The other fallbacks of the pages
  (\<open>error ?? new Error(...)\<close> after \<open>single()\<close> or a list query) stand for a response
  with neither data nor error, which this client does not give.
\<close>

datatype LoadError =
    StoreError Call
  | RowCountError Call
  | NoVersion

definition andThen :: "'e + 'a \<Rightarrow> ('a \<Rightarrow> 'e + 'b) \<Rightarrow> 'e + 'b" where
  "andThen m f = (case m of Inl e \<Rightarrow> Inl e | Inr x \<Rightarrow> f x)"

text \<open>\<open>.single()\<close>: exactly one row, or an error.\<close>

definition single :: "(Call \<Rightarrow> bool) \<Rightarrow> Call \<Rightarrow> 'a list \<Rightarrow> LoadError + 'a" where
  "single fails call rows =
     (if fails call then Inl (StoreError call)
      else case rows of [row] \<Rightarrow> Inr row | _ \<Rightarrow> Inl (RowCountError call))"


section \<open>Latest version of a test\<close>







section \<open>Share view (TestLinkPage)\<close>




section \<open>Cascade deletion (handleDeleteTest)\<close>

text \<open>
  The run keeps the delete statements sent so far, in order, and the store. A rejected
  statement throws: the run stops there with what was deleted before. The handler's
  updates of the dashboard's own lists after a successful run are not part of the model.
\<close>

type_synonym Run = "Call list \<times> Store"

datatype DeleteOutcome = NotConfirmed | Deleted | DeleteFailed Call

definition sendDelete ::
  "(Call \<Rightarrow> bool) \<Rightarrow> Table \<Rightarrow> (Store \<Rightarrow> Store) \<Rightarrow> Run \<Rightarrow> (Call \<times> Run) + Run" where
  "sendDelete fails tbl effect run =
     (if fails (Delete tbl) then Inl (Delete tbl, (fst run @ [Delete tbl], snd run))
      else Inr (fst run @ [Delete tbl], effect (snd run)))"

text \<open>
  The three id lists the handler fetches: \<open>.select('id').eq('test_id', test.id)\<close> on the
  versions, \<open>.select('id').in('test_version_id', versionIds)\<close> on submissions and
  questions.
\<close>

definition versionIdsOf :: "Store \<Rightarrow> TestRow \<Rightarrow> ident list" where
  "versionIdsOf db test = map v_id (filter (\<lambda>v. v_test_id v = t_id test) (db_test_versions db))"

definition submissionIdsIn :: "Store \<Rightarrow> ident list \<Rightarrow> ident list" where
  "submissionIdsIn db versionIds =
     map s_id (filter (\<lambda>s. s_test_version_id s \<in> set versionIds) (db_submissions db))"

definition questionIdsIn :: "Store \<Rightarrow> ident list \<Rightarrow> ident list" where
  "questionIdsIn db versionIds =
     map q_id (filter (\<lambda>q. q_test_version_id q \<in> set versionIds) (db_questions db))"

definition deleteSubmissions ::
  "(Call \<Rightarrow> bool) \<Rightarrow> ident list \<Rightarrow> Run \<Rightarrow> (Call \<times> Run) + Run" where
  "deleteSubmissions fails versionIds run =
     (if fails (Select Submissions) then Inl (Select Submissions, run)
      else let submissionIds = submissionIdsIn (snd run) versionIds
           in if length submissionIds > 0 then
                andThen
                  (sendDelete fails Answers
                     (\<lambda>db. db\<lparr>db_answers :=
                        filter (\<lambda>a. a_submission_id a \<notin> set submissionIds) (db_answers db)\<rparr>) run)
                  (sendDelete fails Submissions
                     (\<lambda>db. db\<lparr>db_submissions :=
                        filter (\<lambda>s. s_id s \<notin> set submissionIds) (db_submissions db)\<rparr>))
              else Inr run)"

definition deleteQuestions ::
  "(Call \<Rightarrow> bool) \<Rightarrow> ident list \<Rightarrow> Run \<Rightarrow> (Call \<times> Run) + Run" where
  "deleteQuestions fails versionIds run =
     (if fails (Select Questions) then Inl (Select Questions, run)
      else let questionIds = questionIdsIn (snd run) versionIds
           in if length questionIds > 0 then
                andThen
                  (sendDelete fails Options
                     (\<lambda>db. db\<lparr>db_options :=
                        filter (\<lambda>option. o_question_id option \<notin> set questionIds) (db_options db)\<rparr>) run)
                  (sendDelete fails Questions
                     (\<lambda>db. db\<lparr>db_questions :=
                        filter (\<lambda>q. q_id q \<notin> set questionIds) (db_questions db)\<rparr>))
              else Inr run)"

definition deleteVersions ::
  "(Call \<Rightarrow> bool) \<Rightarrow> ident list \<Rightarrow> Run \<Rightarrow> (Call \<times> Run) + Run" where
  "deleteVersions fails versionIds run =
     (if length versionIds > 0 then
        andThen (deleteSubmissions fails versionIds run) (\<lambda>run.
        andThen (deleteQuestions fails versionIds run) (\<lambda>run.
        andThen
          (sendDelete fails TestLinks
             (\<lambda>db. db\<lparr>db_test_links :=
                filter (\<lambda>l. l_test_version_id l \<notin> set versionIds) (db_test_links db)\<rparr>) run)
          (sendDelete fails TestVersions
             (\<lambda>db. db\<lparr>db_test_versions :=
                filter (\<lambda>v. v_id v \<notin> set versionIds) (db_test_versions db)\<rparr>))))
      else Inr run)"

definition deleteAll :: "(Call \<Rightarrow> bool) \<Rightarrow> Store \<Rightarrow> TestRow \<Rightarrow> (Call \<times> Run) + Run" where
  "deleteAll fails db test =
     (if fails (Select TestVersions) then Inl (Select TestVersions, ([], db))
      else andThen (deleteVersions fails (versionIdsOf db test) ([], db))
             (sendDelete fails Tests
                (\<lambda>db. db\<lparr>db_tests := filter (\<lambda>t. t_id t \<noteq> t_id test) (db_tests db)\<rparr>)))"

definition handleDeleteTest ::
  "(Call \<Rightarrow> bool) \<Rightarrow> bool \<Rightarrow> Store \<Rightarrow> TestRow \<Rightarrow> DeleteOutcome \<times> Call list \<times> Store" where
  "handleDeleteTest fails confirmDelete db test =
     (if \<not> confirmDelete then (NotConfirmed, [], db)
      else case deleteAll fails db test of
             Inl (call, (sent, db')) \<Rightarrow> (DeleteFailed call, sent, db')
           | Inr (sent, db') \<Rightarrow> (Deleted, sent, db'))"

text \<open>
  The store and the statements a complete run is expected to leave: each table without
  the rows of the test, and the deletes in dependency order, a pair of them left out
  when its id list is empty.
\<close>

definition cascaded :: "Store \<Rightarrow> TestRow \<Rightarrow> Store" where
  "cascaded db test =
     \<lparr>db_tests = filter (\<lambda>t. t_id t \<noteq> t_id test) (db_tests db),
      db_test_versions = filter (\<lambda>v. v_id v \<notin> set (versionIdsOf db test)) (db_test_versions db),
      db_questions =
        filter (\<lambda>q. q_id q \<notin> set (questionIdsIn db (versionIdsOf db test))) (db_questions db),
      db_options =
        filter (\<lambda>x. o_question_id x \<notin> set (questionIdsIn db (versionIdsOf db test))) (db_options db),
      db_test_links =
        filter (\<lambda>l. l_test_version_id l \<notin> set (versionIdsOf db test)) (db_test_links db),
      db_submissions =
        filter (\<lambda>s. s_id s \<notin> set (submissionIdsIn db (versionIdsOf db test))) (db_submissions db),
      db_answers =
        filter (\<lambda>a. a_submission_id a \<notin> set (submissionIdsIn db (versionIdsOf db test))) (db_answers db)\<rparr>"

definition statements :: "Store \<Rightarrow> TestRow \<Rightarrow> Call list" where
  "statements db test =
     (if submissionIdsIn db (versionIdsOf db test) \<noteq> [] then [Delete Answers, Delete Submissions] else [])
     @ (if questionIdsIn db (versionIdsOf db test) \<noteq> [] then [Delete Options, Delete Questions] else [])
     @ (if versionIdsOf db test \<noteq> [] then [Delete TestLinks, Delete TestVersions] else [])
     @ [Delete Tests]"

section \<open>A small store\<close>

text \<open>
  Two tests. The first has a published version 1 with a choice question, a text
  question, a link and one submission, and a draft version 2; the second has a draft
  with a disabled link.
\<close>

definition ex_test :: TestRow where
  "ex_test = \<lparr>t_id = ''t1'', t_title = ''Quiz'', t_slug = ''quiz-abc123'', t_description = None\<rparr>"

definition ex_other_test :: TestRow where
  "ex_other_test = \<lparr>t_id = ''t2'', t_title = ''Poll'', t_slug = ''poll-xyz789'', t_description = None\<rparr>"

definition ex_submission :: SubmissionRow where
  "ex_submission =
     \<lparr>s_id = ''s2'', s_test_version_id = ''v1'', s_participant = ''Jo'' @ [dquote] @ ''hn'',
      s_created_at = ''2024-01-15T09:00:00Z''\<rparr>"

definition ex_store :: Store where
  "ex_store =
     \<lparr>db_tests = [ex_test, ex_other_test],
      db_test_versions =
        [\<lparr>v_id = ''v1'', v_test_id = ''t1'', v_version = Some 1, v_published_at = Some 1000\<rparr>,
         \<lparr>v_id = ''v2'', v_test_id = ''t1'', v_version = Some 2, v_published_at = None\<rparr>,
         \<lparr>v_id = ''v3'', v_test_id = ''t2'', v_version = Some 1, v_published_at = None\<rparr>],
      db_questions =
        [\<lparr>q_id = ''q1'', q_test_version_id = ''v1'', q_kind = SINGLE, q_text = ''Colour?'', q_ord = Some 1\<rparr>,
         \<lparr>q_id = ''q2'', q_test_version_id = ''v1'', q_kind = TEXT, q_text = ''Why?'', q_ord = Some 2\<rparr>,
         \<lparr>q_id = ''q3'', q_test_version_id = ''v3'', q_kind = TEXT, q_text = ''Name?'', q_ord = Some 1\<rparr>],
      db_options =
        [\<lparr>o_id = ''o1'', o_question_id = ''q1'', o_text = ''Red'', o_ord = Some 1\<rparr>,
         \<lparr>o_id = ''o2'', o_question_id = ''q1'', o_text = ''Blue'', o_ord = Some 2\<rparr>],
      db_test_links =
        [\<lparr>l_id = ''l1'', l_test_version_id = ''v1'', l_public_id = ''pub1'', l_is_active = True\<rparr>,
         \<lparr>l_id = ''l3'', l_test_version_id = ''v3'', l_public_id = ''pub3'', l_is_active = False\<rparr>],
      db_submissions =
        [\<lparr>s_id = ''s1'', s_test_version_id = ''v1'', s_participant = ''Ann'', s_created_at = ''2024-01-15T10:00:00Z''\<rparr>],
      db_answers =
        [\<lparr>a_submission_id = ''s1'', a_question_id = ''q1'', a_option_id = Some ''o2'', a_free_text = None\<rparr>,
         \<lparr>a_submission_id = ''s1'', a_question_id = ''q2'', a_option_id = None, a_free_text = Some ''so''\<rparr>]\<rparr>"

section \<open>Loading the statistics view (TestStatsPage)\<close>

text \<open>
  \<open>load\<close> of the statistics view: the test by slug, its latest version, the version's
  questions by \<open>ord\<close> ascending (the store's default puts nulls last), the options of
  the choice questions by \<open>ord\<close>, the version's submissions by \<open>created_at\<close>
  descending and the answers of those submissions. The options and the answers are
  only fetched for a non-empty id list. As in the share view, the load runs for a
  present slug and an authorized visitor.
\<close>

definition ordAscending :: "int option \<Rightarrow> nat \<times> int" where
  "ordAscending ord = (case ord of Some n \<Rightarrow> (0, n) | None \<Rightarrow> (1, 0))"







section \<open>Public page (PublicTestPage)\<close>

text \<open>
  \<open>ERROR_MESSAGE\<close>, the one message of the public page, as the bytes of its UTF-8
  encoding (in Russian: the link is invalid or the test is switched off).
\<close>

definition ERROR_MESSAGE :: string where
  "ERROR_MESSAGE =
     [
      CHR 0xD0, CHR 0xA1, CHR 0xD1, CHR 0x81, CHR 0xD1, CHR 0x8B, CHR 0xD0, CHR 0xBB,
      CHR 0xD0, CHR 0xBA, CHR 0xD0, CHR 0xB0, CHR 0x20, CHR 0xD0, CHR 0xBD, CHR 0xD0,
      CHR 0xB5, CHR 0xD0, CHR 0xB4, CHR 0xD0, CHR 0xB5, CHR 0xD0, CHR 0xB9, CHR 0xD1,
      CHR 0x81, CHR 0xD1, CHR 0x82, CHR 0xD0, CHR 0xB2, CHR 0xD0, CHR 0xB8, CHR 0xD1,
      CHR 0x82, CHR 0xD0, CHR 0xB5, CHR 0xD0, CHR 0xBB, CHR 0xD1, CHR 0x8C, CHR 0xD0,
      CHR 0xBD, CHR 0xD0, CHR 0xB0, CHR 0x20, CHR 0xD0, CHR 0xB8, CHR 0xD0, CHR 0xBB,
      CHR 0xD0, CHR 0xB8, CHR 0x20, CHR 0xD1, CHR 0x82, CHR 0xD0, CHR 0xB5, CHR 0xD1,
      CHR 0x81, CHR 0xD1, CHR 0x82, CHR 0x20, CHR 0xD0, CHR 0xBE, CHR 0xD1, CHR 0x82,
      CHR 0xD0, CHR 0xBA, CHR 0xD0, CHR 0xBB, CHR 0xD1, CHR 0x8E, CHR 0xD1, CHR 0x87,
      CHR 0xD1, CHR 0x91, CHR 0xD0, CHR 0xBD, CHR 0x2E
     ]"

text \<open>A value of type \<open>string | null | undefined\<close> is truthy when it is a non-empty string.\<close>

definition truthy :: "string option \<Rightarrow> bool" where
  "truthy v = (case v of None \<Rightarrow> False | Some s \<Rightarrow> s \<noteq> [])"

text \<open>
  White space of \<open>trim()\<close> and of the class \<open>\s\<close>, on the characters of the model
  (bytes): tab, line feed, vertical tab, form feed, carriage return and space.
\<close>

definition isSpace :: "char \<Rightarrow> bool" where
  "isSpace c = (c \<in> set [CHR 0x09, CHR 0x0A, CHR 0x0B, CHR 0x0C, CHR 0x0D, CHR 0x20])"

definition trim :: "string \<Rightarrow> string" where
  "trim s = rev (dropWhile isSpace (rev (dropWhile isSpace s)))"

text \<open>
  A question of the page is the row and, for a choice question, its options; a text
  question has no \<open>options\<close> field.
\<close>

record Question = QuestionRow +
  q_options :: "OptionRow list option"

record PublicPage =
  isLoading :: bool
  loadError :: "string option"
  testTitle :: string
  testDescription :: "string option"
  testVersionId :: "ident option"
  questions :: "Question list"
  participant :: string
  answersState :: "string \<rightharpoonup> string"

definition initialPage :: PublicPage where
  "initialPage =
     \<lparr>isLoading = True, loadError = None, testTitle = [], testDescription = None,
      testVersionId = None, questions = [], participant = [], answersState = Map.empty\<rparr>"

text \<open>
  The body of the \<open>try\<close> of \<open>loadData\<close>. The link query is
  \<open>.eq('public_id', publicId).eq('is_active', true).single()\<close> with the version joined
  in (\<open>test_versions!inner\<close>), so a link whose version is missing is no row. Every
  failure throws an error carrying \<open>ERROR_MESSAGE\<close>. The options are grouped by
  \<open>question_id\<close> in the order fetched, which is the filter below.
\<close>

definition publicOptions :: "(Call \<Rightarrow> bool) \<Rightarrow> Store \<Rightarrow> ident list \<Rightarrow> string + OptionRow list" where
  "publicOptions fails db singleQuestionIds =
     (if length singleQuestionIds > 0 then
        if fails (Select Options) then Inl ERROR_MESSAGE
        else Inr (sort_key (\<lambda>option. ordAscending (o_ord option))
                    (filter (\<lambda>option. o_question_id option \<in> set singleQuestionIds) (db_options db)))
      else Inr [])"

definition normalizeQuestion :: "OptionRow list \<Rightarrow> QuestionRow \<Rightarrow> Question" where
  "normalizeQuestion typedOptions question =
     (if q_kind question \<noteq> SINGLE then QuestionRow.extend question \<lparr>q_options = None\<rparr>
      else QuestionRow.extend question
             \<lparr>q_options = Some (filter (\<lambda>option. o_question_id option = q_id question) typedOptions)\<rparr>)"

definition activeLinkRows :: "Store \<Rightarrow> string \<Rightarrow> TestLinkRow list" where
  "activeLinkRows db publicId =
     filter (\<lambda>l. l_public_id l = publicId \<and> l_is_active l
               \<and> find (\<lambda>v. v_id v = l_test_version_id l) (db_test_versions db) \<noteq> None)
       (db_test_links db)"

definition publicQuestions ::
  "(Call \<Rightarrow> bool) \<Rightarrow> Store \<Rightarrow> TestVersionRow \<Rightarrow> string + Question list" where
  "publicQuestions fails db testVersionRaw =
     (if fails (Select Questions) then Inl ERROR_MESSAGE
      else
        let typedQuestions =
              sort_key (\<lambda>q. ordAscending (q_ord q))
                (filter (\<lambda>q. q_test_version_id q = v_id testVersionRaw) (db_questions db));
            singleQuestionIds = map q_id (filter (\<lambda>q. q_kind q = SINGLE) typedQuestions)
        in case publicOptions fails db singleQuestionIds of
             Inl optionsError \<Rightarrow> Inl optionsError
           | Inr typedOptions \<Rightarrow> Inr (map (normalizeQuestion typedOptions) typedQuestions))"

definition fetchPublic ::
  "(Call \<Rightarrow> bool) \<Rightarrow> Store \<Rightarrow> string
     \<Rightarrow> string + (string \<times> string option \<times> ident \<times> Question list)" where
  "fetchPublic fails db publicId =
     (case single fails (Select TestLinks) (activeLinkRows db publicId) of
        Inl linkError \<Rightarrow> Inl ERROR_MESSAGE
      | Inr linkData \<Rightarrow>
          (if \<not> l_is_active linkData then Inl ERROR_MESSAGE
           else (case find (\<lambda>v. v_id v = l_test_version_id linkData) (db_test_versions db) of
                   None \<Rightarrow> Inl ERROR_MESSAGE
                 | Some testVersionRaw \<Rightarrow>
                     (case single fails (Select Tests)
                             (filter (\<lambda>t. t_id t = v_test_id testVersionRaw) (db_tests db)) of
                        Inl testError \<Rightarrow> Inl ERROR_MESSAGE
                      | Inr testRow \<Rightarrow>
                          (case publicQuestions fails db testVersionRaw of
                             Inl questionsError \<Rightarrow> Inl questionsError
                           | Inr normalizedQuestions \<Rightarrow>
                               Inr (t_title testRow, t_description testRow,
                                    v_id testVersionRaw, normalizedQuestions))))))"

text \<open>
  \<open>loadData\<close> with its \<open>catch\<close> and \<open>finally\<close>, for a mounted page, and the effect's
  early exit on a missing \<open>publicId\<close>.
\<close>

definition loadData :: "(Call \<Rightarrow> bool) \<Rightarrow> Store \<Rightarrow> string option \<Rightarrow> PublicPage \<Rightarrow> PublicPage" where
  "loadData fails db publicId page =
     (if \<not> truthy publicId then page\<lparr>loadError := Some ERROR_MESSAGE, isLoading := False\<rparr>
      else case fetchPublic fails db (the publicId) of
             Inl message \<Rightarrow> page\<lparr>loadError := Some ERROR_MESSAGE, isLoading := False\<rparr>
           | Inr (title, description, versionId, normalizedQuestions) \<Rightarrow>
               page\<lparr>loadError := None, testTitle := title, testDescription := description,
                    testVersionId := Some versionId, questions := normalizedQuestions,
                    answersState := Map.empty, isLoading := False\<rparr>)"

text \<open>What the page renders: the placeholder, the message block or the form.\<close>

datatype View =
    LoadingView
  | MessageView string
  | FormView string "string option" "Question list"

definition render :: "PublicPage \<Rightarrow> View" where
  "render page =
     (if isLoading page then LoadingView
      else if loadError page \<noteq> None \<or> \<not> truthy (testVersionId page) then MessageView ERROR_MESSAGE
      else FormView (testTitle page) (testDescription page) (questions page))"

section \<open>Submitting the public form (handleSubmit)\<close>

text \<open>
  The client-side comparators are \<open>(a.ord ?? 0) - (b.ord ?? 0)\<close>: a stable sort on
  \<open>ord\<close> with null read as 0.
\<close>

definition ordOrZero :: "int option \<Rightarrow> int" where
  "ordOrZero ord = (case ord of None \<Rightarrow> 0 | Some n \<Rightarrow> n)"

definition sortedOptions :: "OptionRow list \<Rightarrow> OptionRow list" where
  "sortedOptions questionOptions = sort_key (\<lambda>option. ordOrZero (o_ord option)) questionOptions"

text \<open>
  The \<open>forEach\<close> that fills \<open>ensuredAnswers\<close>, a copy of \<open>answersState\<close>, and raises
  \<open>answersChanged\<close>: a choice question whose entry is not truthy gets the id of the
  first of its options sorted by \<open>ord\<close>, when it has an option.
\<close>

fun ensureAnswers ::
  "Question list \<Rightarrow> (string \<rightharpoonup> string) \<times> bool \<Rightarrow> (string \<rightharpoonup> string) \<times> bool" where
  "ensureAnswers [] ensured = ensured"
| "ensureAnswers (question # rest) (ensuredAnswers, answersChanged) =
     (if q_kind question \<noteq> SINGLE then ensureAnswers rest (ensuredAnswers, answersChanged)
      else if truthy (ensuredAnswers (q_id question))
      then ensureAnswers rest (ensuredAnswers, answersChanged)
      else case sortedOptions (case q_options question of None \<Rightarrow> [] | Some opts \<Rightarrow> opts) of
             [] \<Rightarrow> ensureAnswers rest (ensuredAnswers, answersChanged)
           | firstOption # others \<Rightarrow>
               ensureAnswers rest (ensuredAnswers(q_id question \<mapsto> o_id firstOption), True))"

definition missingSingleChoice :: "Question list \<Rightarrow> (string \<rightharpoonup> string) \<Rightarrow> bool" where
  "missingSingleChoice qs ensuredAnswers =
     list_ex (\<lambda>question. if q_kind question \<noteq> SINGLE then False
                          else \<not> truthy (ensuredAnswers (q_id question))) qs"

definition missingTextAnswer :: "Question list \<Rightarrow> (string \<rightharpoonup> string) \<Rightarrow> bool" where
  "missingTextAnswer qs ensuredAnswers =
     list_ex (\<lambda>question. if q_kind question \<noteq> TEXT then False
                          else (case ensuredAnswers (q_id question) of
                                  None \<Rightarrow> [] | Some answer \<Rightarrow> trim answer) = []) qs"

definition answersPayload :: "ident \<Rightarrow> Question list \<Rightarrow> (string \<rightharpoonup> string) \<Rightarrow> AnswerRow list" where
  "answersPayload submissionId qs ensuredAnswers =
     map (\<lambda>question.
            if q_kind question = SINGLE then
              \<lparr>a_submission_id = submissionId, a_question_id = q_id question,
               a_option_id = ensuredAnswers (q_id question), a_free_text = None\<rparr>
            else
              \<lparr>a_submission_id = submissionId, a_question_id = q_id question,
               a_option_id = None,
               a_free_text = Some (case ensuredAnswers (q_id question) of
                                     None \<Rightarrow> [] | Some answer \<Rightarrow> trim answer)\<rparr>) qs"

text \<open>
  \<open>handleSubmit\<close>: what it reports (nothing, one of its alerts, or the redirect), the
  page state and the store. The inserted submission gets its \<open>id\<close> and \<open>created_at\<close>
  from the store: the parameter \<open>generated\<close>. A rejected answers insert leaves the
  submission in the store.
\<close>

datatype SubmitAlert =
    EnterParticipant
  | AnswerAllChoices
  | FillAllTexts
  | AnswersNotSaved
  | NotSubmitted

datatype SubmitOutcome = NoOp | Alert SubmitAlert | Redirect string

definition handleSubmit ::
  "(Call \<Rightarrow> bool) \<Rightarrow> ident \<times> string \<Rightarrow> string option \<Rightarrow> PublicPage \<Rightarrow> Store
     \<Rightarrow> SubmitOutcome \<times> PublicPage \<times> Store" where
  "handleSubmit fails generated publicId page db =
     (if \<not> truthy (testVersionId page) \<or> \<not> truthy publicId then (NoOp, page, db)
      else
        let trimmedParticipant = trim (participant page) in
        if trimmedParticipant = [] then (Alert EnterParticipant, page, db)
        else
          let ensured = ensureAnswers (questions page) (answersState page, False);
              ensuredAnswers = fst ensured;
              page' = (if snd ensured then page\<lparr>answersState := ensuredAnswers\<rparr> else page)
          in
          if missingSingleChoice (questions page) ensuredAnswers
          then (Alert AnswerAllChoices, page', db)
          else if missingTextAnswer (questions page) ensuredAnswers
          then (Alert FillAllTexts, page', db)
          else if fails (Insert Submissions) then (Alert NotSubmitted, page', db)
          else
            let submissionId = fst generated;
                db1 = db\<lparr>db_submissions := db_submissions db @
                        [\<lparr>s_id = submissionId, s_test_version_id = the (testVersionId page),
                          s_participant = trimmedParticipant, s_created_at = snd generated\<rparr>]\<rparr>
            in
            if fails (Insert Answers) then (Alert AnswersNotSaved, page', db1)
            else (Redirect (''/t/'' @ the publicId @ ''/done''), page',
                  db1\<lparr>db_answers := db_answers db1 @
                         answersPayload submissionId (questions page) ensuredAnswers\<rparr>))"

definition ex_choice :: Question where
  "ex_choice =
     \<lparr>q_id = ''q1'', q_test_version_id = ''v1'', q_kind = SINGLE, q_text = ''Colour?'',
      q_ord = Some 1,
      q_options = Some
        [\<lparr>o_id = ''o2'', o_question_id = ''q1'', o_text = ''Blue'', o_ord = Some 2\<rparr>,
         \<lparr>o_id = ''o1'', o_question_id = ''q1'', o_text = ''Red'', o_ord = Some 1\<rparr>]\<rparr>"

definition ex_page :: PublicPage where
  "ex_page =
     \<lparr>isLoading = False, loadError = None, testTitle = ''Quiz'', testDescription = None,
      testVersionId = Some ''v1'',
      questions =
        [ex_choice,
         \<lparr>q_id = ''q2'', q_test_version_id = ''v1'', q_kind = TEXT, q_text = ''Why?'',
          q_ord = Some 2, q_options = None\<rparr>],
      participant = '' Ann '',
      answersState = [''q2'' \<mapsto> ''because'']\<rparr>"

section \<open>Bar charts of the statistics view (charts)\<close>

text \<open>\<open>Array.prototype.findIndex\<close>; \<open>None\<close> is the result \<open>-1\<close>.\<close>

fun findIndex :: "('a \<Rightarrow> bool) \<Rightarrow> 'a list \<Rightarrow> nat option" where
  "findIndex P [] = None"
| "findIndex P (x # xs) = (if P x then Some 0 else map_option Suc (findIndex P xs))"

text \<open>
  \<open>answersByQuestion\<close>: the \<open>Map\<close> filled by the \<open>forEach\<close> over the answers, which
  skips an answer whose submission is not in \<open>submissionIdSet\<close> and appends the others
  to the list of their question.
\<close>

definition groupAnswer ::
  "string set \<Rightarrow> AnswerRow \<Rightarrow> (string \<rightharpoonup> AnswerRow list) \<Rightarrow> (string \<rightharpoonup> AnswerRow list)" where
  "groupAnswer submissionIdSet answer answersByQuestion =
     (if a_submission_id answer \<notin> submissionIdSet then answersByQuestion
      else answersByQuestion(a_question_id answer \<mapsto>
             (case answersByQuestion (a_question_id answer) of None \<Rightarrow> [] | Some list \<Rightarrow> list)
             @ [answer]))"

definition groupAnswers :: "string set \<Rightarrow> AnswerRow list \<Rightarrow> (string \<rightharpoonup> AnswerRow list)" where
  "groupAnswers submissionIdSet answerRows = fold (groupAnswer submissionIdSet) answerRows Map.empty"

text \<open>
  The counting \<open>forEach\<close> of one question: an answer without a truthy \<open>option_id\<close> is
  skipped, and so is one whose option is not among the question's options.
\<close>

definition countAnswer :: "OptionRow list \<Rightarrow> AnswerRow \<Rightarrow> nat list \<Rightarrow> nat list" where
  "countAnswer questionOptions answer counts =
     (if \<not> truthy (a_option_id answer) then counts
      else case findIndex (\<lambda>option. o_id option = the (a_option_id answer)) questionOptions of
             None \<Rightarrow> counts
           | Some index \<Rightarrow> counts[index := counts ! index + 1])"

definition countAnswers :: "OptionRow list \<Rightarrow> AnswerRow list \<Rightarrow> nat list" where
  "countAnswers questionOptions answersForQuestion =
     fold (countAnswer questionOptions) answersForQuestion (map (\<lambda>option. 0) questionOptions)"

record BarChart =
  c_question :: QuestionRow
  c_labels :: "string list"
  c_data :: "nat list"

definition chartOf ::
  "OptionRow list \<Rightarrow> (string \<rightharpoonup> AnswerRow list) \<Rightarrow> QuestionRow \<Rightarrow> BarChart" where
  "chartOf optionRows answersByQuestion question =
     (let questionOptions =
            sortedOptions (filter (\<lambda>option. o_question_id option = q_id question) optionRows);
          answersForQuestion =
            (case answersByQuestion (q_id question) of None \<Rightarrow> [] | Some list \<Rightarrow> list)
      in \<lparr>c_question = question, c_labels = map o_text questionOptions,
          c_data = countAnswers questionOptions answersForQuestion\<rparr>)"

definition charts ::
  "bool \<Rightarrow> QuestionRow list \<Rightarrow> OptionRow list \<Rightarrow> AnswerRow list \<Rightarrow> SubmissionRow list
     \<Rightarrow> BarChart list" where
  "charts isAuthorized questionRows optionRows answerRows filteredSubmissions =
     (if \<not> isAuthorized then []
      else if questionRows = [] then []
      else
        let submissionIdSet = set (map s_id filteredSubmissions);
            answersByQuestion = groupAnswers submissionIdSet answerRows
        in map (chartOf optionRows answersByQuestion)
             (filter (\<lambda>question. q_kind question = SINGLE) questionRows))"

definition ex_question_rows :: "QuestionRow list" where
  "ex_question_rows =
     [\<lparr>q_id = ''q1'', q_test_version_id = ''v1'', q_kind = SINGLE, q_text = ''Colour?'', q_ord = Some 1\<rparr>,
      \<lparr>q_id = ''q2'', q_test_version_id = ''v1'', q_kind = TEXT, q_text = ''Why?'', q_ord = Some 2\<rparr>]"

definition ex_option_rows :: "OptionRow list" where
  "ex_option_rows =
     [\<lparr>o_id = ''oz'', o_question_id = ''q1'', o_text = ''Z'', o_ord = Some 3\<rparr>,
      \<lparr>o_id = ''ox'', o_question_id = ''q1'', o_text = ''X'', o_ord = Some 1\<rparr>,
      \<lparr>o_id = ''oy'', o_question_id = ''q1'', o_text = ''Y'', o_ord = Some 2\<rparr>]"

definition ex_answer_rows :: "AnswerRow list" where
  "ex_answer_rows =
     [\<lparr>a_submission_id = ''s1'', a_question_id = ''q1'', a_option_id = Some ''ox'', a_free_text = None\<rparr>,
      \<lparr>a_submission_id = ''s1'', a_question_id = ''q2'', a_option_id = None, a_free_text = Some ''so''\<rparr>,
      \<lparr>a_submission_id = ''s2'', a_question_id = ''q1'', a_option_id = Some ''oy'', a_free_text = None\<rparr>,
      \<lparr>a_submission_id = ''s3'', a_question_id = ''q1'', a_option_id = Some ''ox'', a_free_text = None\<rparr>,
      \<lparr>a_submission_id = ''s4'', a_question_id = ''q1'', a_option_id = Some ''oy'', a_free_text = None\<rparr>]"

definition ex_filtered :: "SubmissionRow list" where
  "ex_filtered =
     [\<lparr>s_id = ''s1'', s_test_version_id = ''v1'', s_participant = ''Ann'', s_created_at = ''2024-01-15T10:00:00Z''\<rparr>,
      \<lparr>s_id = ''s2'', s_test_version_id = ''v1'', s_participant = ''Bob'', s_created_at = ''2024-01-15T11:00:00Z''\<rparr>,
      \<lparr>s_id = ''s3'', s_test_version_id = ''v1'', s_participant = ''Cy'', s_created_at = ''2024-01-15T12:00:00Z''\<rparr>]"

section \<open>Filtering the submissions (filteredSubmissions)\<close>

text \<open>
  Instants are milliseconds since the epoch. The browser's local time is UTC plus
  \<open>utcOffset\<close> milliseconds, a fixed offset. The filter's bounds are the values of
  two date inputs, \<open>''\<close> or \<open>YYYY-MM-DD\<close>: \<open>None\<close> or the number of the day since
  1970-01-01. \<open>new Date("YYYY-MM-DD")\<close> is the midnight of that day in UTC, the
  language reading a date-only string as UTC. \<open>setHours(h, m, s, ms)\<close> keeps the
  local calendar day of the instant and sets its local time of day.
\<close>

definition msPerDay :: int where
  "msPerDay = 86400000"

definition dateOnly :: "int \<Rightarrow> int" where
  "dateOnly day = day * msPerDay"

definition setHours :: "int \<Rightarrow> int \<Rightarrow> int \<Rightarrow> int \<Rightarrow> int \<Rightarrow> int \<Rightarrow> int" where
  "setHours utcOffset hours minutes seconds ms t =
     ((t + utcOffset) div msPerDay) * msPerDay
     + (hours * 3600000 + minutes * 60000 + seconds * 1000 + ms) - utcOffset"

text \<open>\<open>String.prototype.includes\<close>.\<close>

fun string_includes :: "string \<Rightarrow> string \<Rightarrow> bool" where
  "string_includes [] needle = (needle = [])"
| "string_includes (c # cs) needle = (prefix needle (c # cs) \<or> string_includes cs needle)"

text \<open>
  The predicate of the \<open>filter\<close> and the memo around it. \<open>getTime\<close> reads the
  instant of \<open>created_at\<close>; \<open>toLowerCase\<close> is the language's lower-casing, a parameter.
\<close>

definition passesFilters ::
  "int \<Rightarrow> (string \<Rightarrow> int) \<Rightarrow> (string \<Rightarrow> string) \<Rightarrow> int option \<Rightarrow> int option \<Rightarrow> string
     \<Rightarrow> SubmissionRow \<Rightarrow> bool" where
  "passesFilters utcOffset getTime toLowerCase dateFrom dateTo participantQuery submission =
     (let createdAt = getTime (s_created_at submission) in
      if (case dateFrom of None \<Rightarrow> False
          | Some day \<Rightarrow> createdAt < setHours utcOffset 0 0 0 0 (dateOnly day)) then False
      else if (case dateTo of None \<Rightarrow> False
          | Some day \<Rightarrow> createdAt > setHours utcOffset 23 59 59 999 (dateOnly day)) then False
      else if trim participantQuery \<noteq> []
              \<and> \<not> string_includes (toLowerCase (s_participant submission))
                    (toLowerCase (trim participantQuery)) then False
      else True)"

definition filteredSubmissions ::
  "int \<Rightarrow> (string \<Rightarrow> int) \<Rightarrow> (string \<Rightarrow> string) \<Rightarrow> SubmissionRow list
     \<Rightarrow> int option \<Rightarrow> int option \<Rightarrow> string \<Rightarrow> SubmissionRow list" where
  "filteredSubmissions utcOffset getTime toLowerCase submissionRows dateFrom dateTo participantQuery =
     (if submissionRows = [] then []
      else filter (passesFilters utcOffset getTime toLowerCase dateFrom dateTo participantQuery)
             submissionRows)"

section \<open>Slug of a new test (createSlug)\<close>








section \<open>The recent-submissions table\<close>

lemma sorted_desc_sort_key:
  "sorted_wrt (\<lambda>a b. f b \<le> (f a :: int)) (sort_key (\<lambda>s. - f s) xs)"
proof -
  have "sorted (map (\<lambda>s. - f s) (sort_key (\<lambda>s. - f s) xs))"
    by (rule sorted_sort_key)
  then show ?thesis
    by (simp add: sorted_map)
qed

lemma sorted_wrt_take_drop:
  "sorted_wrt P xs \<Longrightarrow> x \<in> set (take n xs) \<Longrightarrow> y \<in> set (drop n xs) \<Longrightarrow> P x y"
proof -
  assume s: "sorted_wrt P xs" and x: "x \<in> set (take n xs)" and y: "y \<in> set (drop n xs)"
  have "sorted_wrt P (take n xs @ drop n xs)"
    using s by simp
  then show "P x y"
    using x y unfolding sorted_wrt_append by blast
qed

text \<open>
  C10. For an authorized view the table holds the filtered submissions sorted by
  \<open>created_at\<close> descending and cut to the first 20: it has \<open>min 20 n\<close> rows of the
  filtered list, in descending order of time, and together with the rows left out it
  is a permutation of the filtered list, every row left out being no more recent than
  every row shown.
\<close>

theorem latestSubmissions_top20:
  "\<exists>rest.
     mset (latestSubmissions getTime True fs) + mset rest = mset fs
     \<and> length (latestSubmissions getTime True fs) = min 20 (length fs)
     \<and> sorted_wrt (\<lambda>a b. getTime (s_created_at b) \<le> getTime (s_created_at a))
         (latestSubmissions getTime True fs)
     \<and> (\<forall>x \<in> set (latestSubmissions getTime True fs). \<forall>y \<in> set rest.
           getTime (s_created_at y) \<le> getTime (s_created_at x))"
proof -
  let ?f = "\<lambda>s. getTime (s_created_at s)"
  let ?srt = "sort_key (\<lambda>s. - ?f s) fs"
  have srt: "sorted_wrt (\<lambda>a b. ?f b \<le> ?f a) ?srt"
    by (rule sorted_desc_sort_key)
  have eq: "latestSubmissions getTime True fs = take 20 ?srt"
    by (simp add: latestSubmissions_def)
  have m: "mset (take 20 ?srt) + mset (drop 20 ?srt) = mset fs"
    by (metis append_take_drop_id mset_append mset_sort)
  have l: "length (take 20 ?srt) = min 20 (length fs)"
    by simp
  have s: "sorted_wrt (\<lambda>a b. ?f b \<le> ?f a) (take 20 ?srt)"
    using srt by (rule sorted_wrt_take)
  have r: "\<forall>x \<in> set (take 20 ?srt). \<forall>y \<in> set (drop 20 ?srt). ?f y \<le> ?f x"
    using sorted_wrt_take_drop [OF srt] by blast
  show ?thesis
    unfolding eq using m l s r by blast
qed

theorem latestSubmissions_top20_witness:
  "length (latestSubmissions (\<lambda>s. int (length s)) True
     (map (\<lambda>n. ex_submission\<lparr>s_created_at := replicate n CHR ''1''\<rparr>) [0..<25])) = 20"
  using latestSubmissions_top20
    [of "\<lambda>s. int (length s)"
        "map (\<lambda>n. ex_submission\<lparr>s_created_at := replicate n CHR ''1''\<rparr>) [0..<25]"]
  by auto

section \<open>CSV export\<close>





section \<open>Cascade deletion\<close>

lemma sendDelete_Inr:
  "sendDelete fails tbl eff run = Inr run' \<Longrightarrow> run' = (fst run @ [Delete tbl], eff (snd run))"
  by (auto simp: sendDelete_def split: if_splits)

lemma deleteSubmissions_Inr:
  assumes "deleteSubmissions fails vids (sent, db) = Inr run'"
  shows "run' =
    (sent @ (if submissionIdsIn db vids \<noteq> [] then [Delete Answers, Delete Submissions] else []),
     db\<lparr>db_answers := filter (\<lambda>a. a_submission_id a \<notin> set (submissionIdsIn db vids)) (db_answers db),
        db_submissions := filter (\<lambda>s. s_id s \<notin> set (submissionIdsIn db vids)) (db_submissions db)\<rparr>)"
proof (cases "submissionIdsIn db vids = []")
  case True
  with assms show ?thesis
    by (auto simp: deleteSubmissions_def split: if_splits)
next
  case False
  with assms show ?thesis
    by (auto simp: deleteSubmissions_def andThen_def Let_def split: if_splits sum.splits
             dest!: sendDelete_Inr)
qed

lemma deleteQuestions_Inr:
  assumes "deleteQuestions fails vids (sent, db) = Inr run'"
  shows "run' =
    (sent @ (if questionIdsIn db vids \<noteq> [] then [Delete Options, Delete Questions] else []),
     db\<lparr>db_options := filter (\<lambda>x. o_question_id x \<notin> set (questionIdsIn db vids)) (db_options db),
        db_questions := filter (\<lambda>q. q_id q \<notin> set (questionIdsIn db vids)) (db_questions db)\<rparr>)"
proof (cases "questionIdsIn db vids = []")
  case True
  with assms show ?thesis
    by (auto simp: deleteQuestions_def split: if_splits)
next
  case False
  with assms show ?thesis
    by (auto simp: deleteQuestions_def andThen_def Let_def split: if_splits sum.splits
             dest!: sendDelete_Inr)
qed

lemma ids_of_no_versions:
  "submissionIdsIn db [] = []" "questionIdsIn db [] = []"
  by (simp_all add: submissionIdsIn_def questionIdsIn_def)

lemma deleteVersions_Inr:
  assumes "deleteVersions fails vids ([], db) = Inr (sent, db')"
  shows "sent =
      (if submissionIdsIn db vids \<noteq> [] then [Delete Answers, Delete Submissions] else [])
      @ (if questionIdsIn db vids \<noteq> [] then [Delete Options, Delete Questions] else [])
      @ (if vids \<noteq> [] then [Delete TestLinks, Delete TestVersions] else [])
    \<and> db' = db\<lparr>
        db_test_versions := filter (\<lambda>v. v_id v \<notin> set vids) (db_test_versions db),
        db_questions := filter (\<lambda>q. q_id q \<notin> set (questionIdsIn db vids)) (db_questions db),
        db_options := filter (\<lambda>x. o_question_id x \<notin> set (questionIdsIn db vids)) (db_options db),
        db_test_links := filter (\<lambda>l. l_test_version_id l \<notin> set vids) (db_test_links db),
        db_submissions := filter (\<lambda>s. s_id s \<notin> set (submissionIdsIn db vids)) (db_submissions db),
        db_answers := filter (\<lambda>a. a_submission_id a \<notin> set (submissionIdsIn db vids)) (db_answers db)\<rparr>"
proof (cases "vids = []")
  case True
  with assms show ?thesis
    by (simp add: deleteVersions_def ids_of_no_versions)
next
  case False
  from assms False obtain r1 r2 r3 where
    s1: "deleteSubmissions fails vids ([], db) = Inr r1" and
    s2: "deleteQuestions fails vids r1 = Inr r2" and
    s3: "sendDelete fails TestLinks
          (\<lambda>db. db\<lparr>db_test_links :=
             filter (\<lambda>l. l_test_version_id l \<notin> set vids) (db_test_links db)\<rparr>) r2 = Inr r3" and
    s4: "sendDelete fails TestVersions
          (\<lambda>db. db\<lparr>db_test_versions :=
             filter (\<lambda>v. v_id v \<notin> set vids) (db_test_versions db)\<rparr>) r3 = Inr (sent, db')"
    by (auto simp: deleteVersions_def andThen_def split: sum.splits)
  note e1 = deleteSubmissions_Inr [OF s1]
  have s2': "deleteQuestions fails vids (fst r1, snd r1) = Inr r2"
    using s2 by simp
  note e2 = deleteQuestions_Inr [OF s2']
  note e3 = sendDelete_Inr [OF s3]
  note e4 = sendDelete_Inr [OF s4]
  have q: "questionIdsIn (snd r1) vids = questionIdsIn db vids"
    by (simp add: e1 questionIdsIn_def)
  show ?thesis
    using e4 False by (simp add: e3 e2 q) (simp add: e1)
qed

lemma deleteAll_Inr:
  assumes "deleteAll fails db test = Inr (sent, db')"
  shows "sent = statements db test \<and> db' = cascaded db test"
proof -
  from assms obtain r where
    s1: "deleteVersions fails (versionIdsOf db test) ([], db) = Inr r" and
    s2: "sendDelete fails Tests
          (\<lambda>db. db\<lparr>db_tests := filter (\<lambda>t. t_id t \<noteq> t_id test) (db_tests db)\<rparr>) r
        = Inr (sent, db')"
    by (auto simp: deleteAll_def andThen_def split: if_splits sum.splits)
  have s1': "deleteVersions fails (versionIdsOf db test) ([], db) = Inr (fst r, snd r)"
    using s1 by simp
  note e1 = deleteVersions_Inr [OF s1']
  note e2 = sendDelete_Inr [OF s2]
  show ?thesis
    using e2 e1 by (simp add: statements_def cascaded_def)
qed

lemma deleteAll_succeeds: "\<exists>run. deleteAll (\<lambda>c. False) db test = Inr run"
  by (simp add: deleteAll_def deleteVersions_def deleteSubmissions_def deleteQuestions_def
        sendDelete_def andThen_def Let_def)

lemma subseq_statements:
  "subseq (statements db test)
     [Delete Answers, Delete Submissions, Delete Options, Delete Questions,
      Delete TestLinks, Delete TestVersions, Delete Tests]"
  by (simp add: statements_def)

text \<open>
  C1. With the store rejecting nothing the handler succeeds on every store, empty id
  lists included. A successful run has sent its deletes in the order answers,
  submissions, options, questions, links, versions, test, the first two left out when
  the versions have no submission, the next two when they have no question, the links
  and versions when the test has no version; and afterwards the store holds no test
  with that id, no version of the test, no question or link or submission of those
  versions, no option of those questions and no answer of those submissions, neither
  by foreign key nor by their former ids.
\<close>

theorem handleDeleteTest_cascade:
  "fst (handleDeleteTest (\<lambda>c. False) True db test) = Deleted
   \<and> (handleDeleteTest fails True db test = (Deleted, sent, db') \<longrightarrow>
        sent =
          (if submissionIdsIn db (versionIdsOf db test) \<noteq> []
           then [Delete Answers, Delete Submissions] else [])
          @ (if questionIdsIn db (versionIdsOf db test) \<noteq> []
             then [Delete Options, Delete Questions] else [])
          @ (if versionIdsOf db test \<noteq> [] then [Delete TestLinks, Delete TestVersions] else [])
          @ [Delete Tests]
      \<and> subseq sent
            [Delete Answers, Delete Submissions, Delete Options, Delete Questions,
             Delete TestLinks, Delete TestVersions, Delete Tests]
      \<and> (\<forall>t \<in> set (db_tests db'). t_id t \<noteq> t_id test)
      \<and> (\<forall>v \<in> set (db_test_versions db').
            v_test_id v \<noteq> t_id test \<and> v_id v \<notin> set (versionIdsOf db test))
      \<and> (\<forall>q \<in> set (db_questions db').
            q_test_version_id q \<notin> set (versionIdsOf db test)
            \<and> q_id q \<notin> set (questionIdsIn db (versionIdsOf db test)))
      \<and> (\<forall>x \<in> set (db_options db').
            o_question_id x \<notin> set (questionIdsIn db (versionIdsOf db test)))
      \<and> (\<forall>l \<in> set (db_test_links db'). l_test_version_id l \<notin> set (versionIdsOf db test))
      \<and> (\<forall>s \<in> set (db_submissions db').
            s_test_version_id s \<notin> set (versionIdsOf db test)
            \<and> s_id s \<notin> set (submissionIdsIn db (versionIdsOf db test)))
      \<and> (\<forall>a \<in> set (db_answers db').
            a_submission_id a \<notin> set (submissionIdsIn db (versionIdsOf db test))))"
proof (intro conjI impI)
  show "fst (handleDeleteTest (\<lambda>c. False) True db test) = Deleted"
    using deleteAll_succeeds [of db test] by (auto simp: handleDeleteTest_def)
next
  assume "handleDeleteTest fails True db test = (Deleted, sent, db')"
  then have "deleteAll fails db test = Inr (sent, db')"
    by (auto simp: handleDeleteTest_def split: sum.splits prod.splits)
  then have r: "sent = statements db test" "db' = cascaded db test"
    using deleteAll_Inr by blast+
  show "sent =
          (if submissionIdsIn db (versionIdsOf db test) \<noteq> []
           then [Delete Answers, Delete Submissions] else [])
          @ (if questionIdsIn db (versionIdsOf db test) \<noteq> []
             then [Delete Options, Delete Questions] else [])
          @ (if versionIdsOf db test \<noteq> [] then [Delete TestLinks, Delete TestVersions] else [])
          @ [Delete Tests]"
    by (simp add: r statements_def)
  show "subseq sent
            [Delete Answers, Delete Submissions, Delete Options, Delete Questions,
             Delete TestLinks, Delete TestVersions, Delete Tests]"
    unfolding r by (rule subseq_statements)
  show "\<forall>t \<in> set (db_tests db'). t_id t \<noteq> t_id test"
    by (simp add: r cascaded_def)
  show "\<forall>v \<in> set (db_test_versions db').
            v_test_id v \<noteq> t_id test \<and> v_id v \<notin> set (versionIdsOf db test)"
    by (auto simp: r cascaded_def versionIdsOf_def)
  show "\<forall>q \<in> set (db_questions db').
            q_test_version_id q \<notin> set (versionIdsOf db test)
            \<and> q_id q \<notin> set (questionIdsIn db (versionIdsOf db test))"
    by (auto simp: r cascaded_def questionIdsIn_def)
  show "\<forall>x \<in> set (db_options db').
            o_question_id x \<notin> set (questionIdsIn db (versionIdsOf db test))"
    by (simp add: r cascaded_def)
  show "\<forall>l \<in> set (db_test_links db'). l_test_version_id l \<notin> set (versionIdsOf db test)"
    by (simp add: r cascaded_def)
  show "\<forall>s \<in> set (db_submissions db').
            s_test_version_id s \<notin> set (versionIdsOf db test)
            \<and> s_id s \<notin> set (submissionIdsIn db (versionIdsOf db test))"
    by (auto simp: r cascaded_def submissionIdsIn_def)
  show "\<forall>a \<in> set (db_answers db').
            a_submission_id a \<notin> set (submissionIdsIn db (versionIdsOf db test))"
    by (simp add: r cascaded_def)
qed

lemma ex_delete:
  "handleDeleteTest (\<lambda>c. False) True ex_store ex_test =
     (Deleted,
      [Delete Answers, Delete Submissions, Delete Options, Delete Questions,
       Delete TestLinks, Delete TestVersions, Delete Tests],
      \<lparr>db_tests = [ex_other_test],
       db_test_versions =
         [\<lparr>v_id = ''v3'', v_test_id = ''t2'', v_version = Some 1, v_published_at = None\<rparr>],
       db_questions =
         [\<lparr>q_id = ''q3'', q_test_version_id = ''v3'', q_kind = TEXT, q_text = ''Name?'', q_ord = Some 1\<rparr>],
       db_options = [],
       db_test_links =
         [\<lparr>l_id = ''l3'', l_test_version_id = ''v3'', l_public_id = ''pub3'', l_is_active = False\<rparr>],
       db_submissions = [],
       db_answers = []\<rparr>)"
  by (simp add: handleDeleteTest_def deleteAll_def deleteVersions_def deleteSubmissions_def
        deleteQuestions_def sendDelete_def andThen_def versionIdsOf_def submissionIdsIn_def
        questionIdsIn_def ex_store_def ex_test_def ex_other_test_def Let_def)

theorem handleDeleteTest_cascade_witness:
  "handleDeleteTest (\<lambda>c. False) True ex_store ex_test =
     (Deleted,
      [Delete Answers, Delete Submissions, Delete Options, Delete Questions,
       Delete TestLinks, Delete TestVersions, Delete Tests],
      \<lparr>db_tests = [ex_other_test],
       db_test_versions =
         [\<lparr>v_id = ''v3'', v_test_id = ''t2'', v_version = Some 1, v_published_at = None\<rparr>],
       db_questions =
         [\<lparr>q_id = ''q3'', q_test_version_id = ''v3'', q_kind = TEXT, q_text = ''Name?'', q_ord = Some 1\<rparr>],
       db_options = [],
       db_test_links =
         [\<lparr>l_id = ''l3'', l_test_version_id = ''v3'', l_public_id = ''pub3'', l_is_active = False\<rparr>],
       db_submissions = [],
       db_answers = []\<rparr>)
   \<and> versionIdsOf ex_store ex_test = [''v1'', ''v2'']
   \<and> t_id ex_test \<notin> t_id ` set [ex_other_test]"
  using handleDeleteTest_cascade
    [of ex_store ex_test "\<lambda>c. False"
      "[Delete Answers, Delete Submissions, Delete Options, Delete Questions,
        Delete TestLinks, Delete TestVersions, Delete Tests]"
      "\<lparr>db_tests = [ex_other_test],
       db_test_versions =
         [\<lparr>v_id = ''v3'', v_test_id = ''t2'', v_version = Some 1, v_published_at = None\<rparr>],
       db_questions =
         [\<lparr>q_id = ''q3'', q_test_version_id = ''v3'', q_kind = TEXT, q_text = ''Name?'', q_ord = Some 1\<rparr>],
       db_options = [],
       db_test_links =
         [\<lparr>l_id = ''l3'', l_test_version_id = ''v3'', l_public_id = ''pub3'', l_is_active = False\<rparr>],
       db_submissions = [],
       db_answers = []\<rparr>"]
    ex_delete
  by (simp add: versionIdsOf_def ex_store_def ex_test_def ex_other_test_def)

section \<open>Latest version and link issuance\<close>



















section \<open>The public page fails with one message\<close>

lemma render_message_only:
  "render page = MessageView message \<Longrightarrow> message = ERROR_MESSAGE"
  by (auto simp: render_def split: if_splits)

lemma fetchPublic_no_active_link:
  assumes "\<not> (\<exists>l \<in> set (db_test_links db). l_public_id l = publicId \<and> l_is_active l)"
  shows "fetchPublic fails db publicId = Inl ERROR_MESSAGE"
proof -
  have "activeLinkRows db publicId = []"
    using assms unfolding activeLinkRows_def filter_empty_conv by blast
  then show ?thesis
    by (simp add: fetchPublic_def single_def)
qed

text \<open>
  C4. When no link row has the requested \<open>public_id\<close> with \<open>is_active\<close> set,
  because there is no such link or because it is disabled, the loaded page renders
  the message block with \<open>ERROR_MESSAGE\<close> and stores that message as its load error;
  and whatever the store, the request and the failure, a message block of this page
  never carries another text. In the small store the disabled link and an unknown id
  render the same block, while the active link renders the form.
\<close>

theorem public_link_generic_failure:
  assumes "\<not> (\<exists>l \<in> set (db_test_links db). l_public_id l = publicId \<and> l_is_active l)"
  shows "render (loadData fails db (Some publicId) page) = MessageView ERROR_MESSAGE
     \<and> loadError (loadData fails db (Some publicId) page) = Some ERROR_MESSAGE
     \<and> (\<forall>fails' db' publicId' page' message.
           render (loadData fails' db' publicId' page') = MessageView message
           \<longrightarrow> message = ERROR_MESSAGE)"
proof -
  have s: "loadData fails db (Some publicId) page
      = page\<lparr>loadError := Some ERROR_MESSAGE, isLoading := False\<rparr>"
    using fetchPublic_no_active_link [OF assms, of fails]
    by (simp add: loadData_def)
  show ?thesis
    using render_message_only by (auto simp: s render_def)
qed

lemma ex_public_form:
  "\<exists>qs. render (loadData (\<lambda>c. False) ex_store (Some ''pub1'') initialPage)
     = FormView ''Quiz'' None qs \<and> length qs = 2"
proof -
  let ?v1 = "\<lparr>v_id = ''v1'', v_test_id = ''t1'', v_version = Some 1, v_published_at = Some 1000\<rparr>"
  have l: "activeLinkRows ex_store ''pub1''
       = [\<lparr>l_id = ''l1'', l_test_version_id = ''v1'', l_public_id = ''pub1'', l_is_active = True\<rparr>]"
    by (simp add: activeLinkRows_def ex_store_def)
  have v: "find (\<lambda>v. v_id v = ''v1'') (db_test_versions ex_store) = Some ?v1"
    by (simp add: ex_store_def)
  have t: "filter (\<lambda>t. t_id t = ''t1'') (db_tests ex_store) = [ex_test]"
    by (simp add: ex_store_def ex_test_def ex_other_test_def)
  have "\<exists>qs. publicQuestions (\<lambda>c. False) ex_store ?v1 = Inr qs
      \<and> length qs = length (filter (\<lambda>q. q_test_version_id q = ''v1'') (db_questions ex_store))"
    by (simp add: publicQuestions_def publicOptions_def Let_def)
  then obtain qs where q: "publicQuestions (\<lambda>c. False) ex_store ?v1 = Inr qs" "length qs = 2"
    by (auto simp: ex_store_def)
  have "fetchPublic (\<lambda>c. False) ex_store ''pub1'' = Inr (''Quiz'', None, ''v1'', qs)"
    by (simp add: fetchPublic_def single_def l v t q ex_test_def)
  with q show ?thesis
    by (simp add: loadData_def truthy_def render_def initialPage_def)
qed

theorem public_link_generic_failure_witness:
  "render (loadData (\<lambda>c. False) ex_store (Some ''pub3'') initialPage) = MessageView ERROR_MESSAGE
   \<and> render (loadData (\<lambda>c. False) ex_store (Some ''nowhere'') initialPage) = MessageView ERROR_MESSAGE
   \<and> \<lparr>l_id = ''l3'', l_test_version_id = ''v3'', l_public_id = ''pub3'', l_is_active = False\<rparr>
       \<in> set (db_test_links ex_store)
   \<and> ''nowhere'' \<notin> l_public_id ` set (db_test_links ex_store)
   \<and> (\<exists>qs. render (loadData (\<lambda>c. False) ex_store (Some ''pub1'') initialPage)
         = FormView ''Quiz'' None qs \<and> length qs = 2)"
proof -
  have disabled: "\<not> (\<exists>l \<in> set (db_test_links ex_store). l_public_id l = ''pub3'' \<and> l_is_active l)"
    by (simp add: ex_store_def)
  have missing: "\<not> (\<exists>l \<in> set (db_test_links ex_store). l_public_id l = ''nowhere'' \<and> l_is_active l)"
    by (simp add: ex_store_def)
  have rows: "\<lparr>l_id = ''l3'', l_test_version_id = ''v3'', l_public_id = ''pub3'', l_is_active = False\<rparr>
       \<in> set (db_test_links ex_store)"
    "''nowhere'' \<notin> l_public_id ` set (db_test_links ex_store)"
    by (simp_all add: ex_store_def)
  from public_link_generic_failure [OF disabled, of "\<lambda>c. False" initialPage]
    public_link_generic_failure [OF missing, of "\<lambda>c. False" initialPage]
    rows ex_public_form
  show ?thesis
    by blast
qed

section \<open>Default answer of an unanswered choice question\<close>

lemma sort_key_first_least:
  fixes f :: "'a \<Rightarrow> 'k::linorder"
  shows "sort_key f xs = y # ys \<Longrightarrow>
    \<exists>before after. xs = before @ y # after
       \<and> (\<forall>x \<in> set before. f y < f x) \<and> (\<forall>x \<in> set after. f y \<le> f x)"
proof (induction xs arbitrary: y ys)
  case Nil
  then show ?case by simp
next
  case (Cons a xs)
  show ?case
  proof (cases "sort_key f xs")
    case Nil
    then have "xs = []"
      by (metis length_sort length_0_conv)
    with Cons.prems have "a # xs = [] @ y # []"
      by simp
    then show ?thesis
      by (intro exI [of _ "[]"]) auto
  next
    case (Cons z zs)
    from Cons.IH [OF this] obtain before after where
      xs: "xs = before @ z # after" and
      b: "\<forall>x \<in> set before. f z < f x" and
      a: "\<forall>x \<in> set after. f z \<le> f x"
      by blast
    show ?thesis
    proof (cases "f a \<le> f z")
      case True
      with Cons.prems Cons have "y = a"
        by simp
      moreover have "\<forall>x \<in> set xs. f a \<le> f x"
        using True xs a b by (auto intro: order_trans less_imp_le)
      ultimately show ?thesis
        by (intro exI [of _ "[]"] exI [of _ xs]) simp
    next
      case False
      with Cons.prems Cons have "y = z"
        by simp
      moreover have "a # xs = (a # before) @ z # after"
        using xs by simp
      moreover have "\<forall>x \<in> set (a # before). f z < f x"
        using False b by auto
      ultimately show ?thesis
        using a by blast
    qed
  qed
qed

lemma ensureAnswers_other_key:
  "k \<notin> q_id ` set qs \<Longrightarrow> fst (ensureAnswers qs (m, c)) k = m k"
proof (induction qs arbitrary: m c)
  case Nil
  then show ?case by simp
next
  case (Cons q qs)
  then show ?case
    by (auto split: list.splits)
qed

lemma ensureAnswers_changed_stays:
  "snd (ensureAnswers qs (m, True)) = True"
  by (induction qs arbitrary: m) (auto split: list.splits)

lemma ensureAnswers_default:
  assumes "distinct (map q_id qs)" and "question \<in> set qs" and "q_kind question = SINGLE"
    and "\<not> truthy (m (q_id question))"
    and "sortedOptions (case q_options question of None \<Rightarrow> [] | Some opts \<Rightarrow> opts) = firstOption # others"
  shows "ensureAnswers qs (m, c) =
           (fst (ensureAnswers qs (m, c)), True)
       \<and> fst (ensureAnswers qs (m, c)) (q_id question) = Some (o_id firstOption)"
  using assms
proof (induction qs arbitrary: m c)
  case Nil
  then show ?case by simp
next
  case (Cons q qs)
  show ?case
  proof (cases "q = question")
    case True
    from Cons.prems have k: "q_id question \<notin> q_id ` set qs"
      using True by auto
    let ?m = "m(q_id question \<mapsto> o_id firstOption)"
    have step: "ensureAnswers (q # qs) (m, c) = ensureAnswers qs (?m, True)"
      using True Cons.prems by simp
    have "fst (ensureAnswers qs (?m, True)) (q_id question) = Some (o_id firstOption)"
      using ensureAnswers_other_key [OF k] by simp
    moreover have "snd (ensureAnswers qs (?m, True)) = True"
      by (rule ensureAnswers_changed_stays)
    ultimately show ?thesis
      unfolding step by (simp add: prod_eq_iff)
  next
    case False
    with Cons.prems have mem: "question \<in> set qs" and d: "distinct (map q_id qs)"
      and ne: "q_id q \<noteq> q_id question"
      by auto
    have "\<exists>m' c'. ensureAnswers (q # qs) (m, c) = ensureAnswers qs (m', c')
        \<and> m' (q_id question) = m (q_id question)"
      using ne by (auto split: list.splits)
    then obtain m' c' where step: "ensureAnswers (q # qs) (m, c) = ensureAnswers qs (m', c')"
      and same: "m' (q_id question) = m (q_id question)"
      by blast
    from Cons.prems same have "\<not> truthy (m' (q_id question))"
      by simp
    from Cons.IH [where m = m' and c = c', OF d mem Cons.prems(3) this Cons.prems(5)] show ?thesis
      unfolding step .
  qed
qed

lemma handleSubmit_past_participant:
  assumes "handleSubmit fails generated publicId page db = (outcome, page', db')"
    and "outcome \<noteq> NoOp" and "outcome \<noteq> Alert EnterParticipant"
    and "snd (ensureAnswers (questions page) (answersState page, False))"
  shows "answersState page' = fst (ensureAnswers (questions page) (answersState page, False))"
  using assms
  by (auto simp: handleSubmit_def Let_def split: if_splits)

lemma handleSubmit_validation_alert:
  assumes "handleSubmit fails generated publicId page db = (Alert alert, page', db')"
    and "alert = AnswerAllChoices \<or> alert = FillAllTexts"
  shows "db' = db"
  using assms
  by (auto simp: handleSubmit_def Let_def split: if_splits)

lemma handleSubmit_redirect:
  assumes "handleSubmit fails generated publicId page db = (Redirect url, page', db')"
  shows "set (answersPayload (fst generated) (questions page)
           (fst (ensureAnswers (questions page) (answersState page, False))))
         \<subseteq> set (db_answers db')"
  using assms
  by (auto simp: handleSubmit_def Let_def split: if_splits)

text \<open>
  C5. Take a page whose questions have distinct ids and a choice question with at
  least one option whose entry in the answers is missing or empty. Then there is an
  option of the question that is first by \<open>ord\<close> (null read as 0; every option before
  it in the fetched order has a strictly larger \<open>ord\<close>, every option after it one at
  least as large) such that: the ensured answers hold its id for the question; whenever
  the handler gets past the participant check, also when validation then rejects the
  form, the page state holds that id; a validation alert has written nothing to the
  store; and a submission that ends in the redirect has stored the answer row of the
  question with that option id.
\<close>

theorem unanswered_single_gets_first_option:
  assumes "distinct (map q_id (questions page))"
    and "question \<in> set (questions page)"
    and "q_kind question = SINGLE"
    and "\<not> truthy (answersState page (q_id question))"
    and "q_options question = Some opts" and "opts \<noteq> []"
  shows "\<exists>firstOption before after.
      opts = before @ firstOption # after
      \<and> (\<forall>x \<in> set before. ordOrZero (o_ord firstOption) < ordOrZero (o_ord x))
      \<and> (\<forall>x \<in> set after. ordOrZero (o_ord firstOption) \<le> ordOrZero (o_ord x))
      \<and> fst (ensureAnswers (questions page) (answersState page, False)) (q_id question)
          = Some (o_id firstOption)
      \<and> (\<forall>outcome page' db'.
            handleSubmit fails generated publicId page db = (outcome, page', db')
            \<and> outcome \<noteq> NoOp \<and> outcome \<noteq> Alert EnterParticipant
            \<longrightarrow> answersState page' (q_id question) = Some (o_id firstOption))
      \<and> (\<forall>alert page' db'.
            handleSubmit fails generated publicId page db = (Alert alert, page', db')
            \<and> (alert = AnswerAllChoices \<or> alert = FillAllTexts)
            \<longrightarrow> db' = db)
      \<and> (\<forall>url page' db'.
            handleSubmit fails generated publicId page db = (Redirect url, page', db')
            \<longrightarrow> \<lparr>a_submission_id = fst generated, a_question_id = q_id question,
                  a_option_id = Some (o_id firstOption), a_free_text = None\<rparr>
                \<in> set (db_answers db'))"
proof -
  let ?E = "ensureAnswers (questions page) (answersState page, False)"
  from assms(6) obtain firstOption others where
    srt: "sortedOptions opts = firstOption # others"
    by (cases "sortedOptions opts") (auto simp: sortedOptions_def dest: arg_cong [where f = length])
  from sort_key_first_least [OF srt [unfolded sortedOptions_def]]
  obtain before after where
    split: "opts = before @ firstOption # after"
    and lt: "\<forall>x \<in> set before. ordOrZero (o_ord firstOption) < ordOrZero (o_ord x)"
    and le: "\<forall>x \<in> set after. ordOrZero (o_ord firstOption) \<le> ordOrZero (o_ord x)"
    by blast
  have srt': "sortedOptions (case q_options question of None \<Rightarrow> [] | Some opts \<Rightarrow> opts)
      = firstOption # others"
    using srt assms(5) by simp
  note d = ensureAnswers_default
    [where m = "answersState page" and c = False, OF assms(1) assms(2) assms(3) assms(4) srt']
  then have changed: "snd ?E" and val: "fst ?E (q_id question) = Some (o_id firstOption)"
    by (simp_all add: prod_eq_iff)
  have st: "\<forall>outcome page' db'.
            handleSubmit fails generated publicId page db = (outcome, page', db')
            \<and> outcome \<noteq> NoOp \<and> outcome \<noteq> Alert EnterParticipant
            \<longrightarrow> answersState page' (q_id question) = Some (o_id firstOption)"
    using handleSubmit_past_participant [OF _ _ _ changed] val by metis
  have wr: "\<forall>alert page' db'.
            handleSubmit fails generated publicId page db = (Alert alert, page', db')
            \<and> (alert = AnswerAllChoices \<or> alert = FillAllTexts)
            \<longrightarrow> db' = db"
    using handleSubmit_validation_alert by blast
  have row: "\<lparr>a_submission_id = fst generated, a_question_id = q_id question,
                a_option_id = Some (o_id firstOption), a_free_text = None\<rparr>
      \<in> set (answersPayload (fst generated) (questions page) (fst ?E))"
    unfolding answersPayload_def set_map
    using assms(2) assms(3) val by (intro image_eqI [where x = question]) simp_all
  have ins: "\<forall>url page' db'.
            handleSubmit fails generated publicId page db = (Redirect url, page', db')
            \<longrightarrow> \<lparr>a_submission_id = fst generated, a_question_id = q_id question,
                  a_option_id = Some (o_id firstOption), a_free_text = None\<rparr>
                \<in> set (db_answers db')"
    using handleSubmit_redirect row by blast
  from split lt le val st wr ins show ?thesis
    by blast
qed

lemma ex_ensured:
  "ensureAnswers (questions ex_page) (answersState ex_page, False)
     = ([''q2'' \<mapsto> ''because'', ''q1'' \<mapsto> ''o1''], True)"
  by (simp add: ex_page_def ex_choice_def truthy_def sortedOptions_def ordOrZero_def)

lemma ex_submit:
  "handleSubmit (\<lambda>c. False) (''s9'', ''2024-02-01T08:00:00Z'') (Some ''pub1'') ex_page ex_store
     = (Redirect ''/t/pub1/done'',
        ex_page\<lparr>answersState := [''q2'' \<mapsto> ''because'', ''q1'' \<mapsto> ''o1'']\<rparr>,
        ex_store\<lparr>
          db_submissions := db_submissions ex_store @
            [\<lparr>s_id = ''s9'', s_test_version_id = ''v1'', s_participant = ''Ann'',
              s_created_at = ''2024-02-01T08:00:00Z''\<rparr>],
          db_answers := db_answers ex_store @
            [\<lparr>a_submission_id = ''s9'', a_question_id = ''q1'', a_option_id = Some ''o1'',
              a_free_text = None\<rparr>,
             \<lparr>a_submission_id = ''s9'', a_question_id = ''q2'', a_option_id = None,
              a_free_text = Some ''because''\<rparr>]\<rparr>)"
proof -
  have p: "trim (participant ex_page) = ''Ann''"
    by (simp add: ex_page_def trim_def isSpace_def)
  have q: "questions ex_page =
      [ex_choice,
       \<lparr>q_id = ''q2'', q_test_version_id = ''v1'', q_kind = TEXT, q_text = ''Why?'',
        q_ord = Some 2, q_options = None\<rparr>]"
    "testVersionId ex_page = Some ''v1''"
    by (simp_all add: ex_page_def)
  have v1: "\<not> missingSingleChoice (questions ex_page) [''q2'' \<mapsto> ''because'', ''q1'' \<mapsto> ''o1'']"
    by (simp add: missingSingleChoice_def q ex_choice_def truthy_def)
  have v2: "\<not> missingTextAnswer (questions ex_page) [''q2'' \<mapsto> ''because'', ''q1'' \<mapsto> ''o1'']"
    by (simp add: missingTextAnswer_def q ex_choice_def trim_def isSpace_def)
  have a: "answersPayload ''s9'' (questions ex_page) [''q2'' \<mapsto> ''because'', ''q1'' \<mapsto> ''o1'']
     = [\<lparr>a_submission_id = ''s9'', a_question_id = ''q1'', a_option_id = Some ''o1'',
              a_free_text = None\<rparr>,
             \<lparr>a_submission_id = ''s9'', a_question_id = ''q2'', a_option_id = None,
              a_free_text = Some ''because''\<rparr>]"
    by (simp add: answersPayload_def q ex_choice_def trim_def isSpace_def)
  show ?thesis
    by (simp add: handleSubmit_def Let_def p ex_ensured v1 v2 a truthy_def q(2))
qed

theorem unanswered_single_gets_first_option_witness:
  "distinct (map q_id (questions ex_page))
   \<and> ex_choice \<in> set (questions ex_page)
   \<and> q_kind ex_choice = SINGLE
   \<and> \<not> truthy (answersState ex_page (q_id ex_choice))
   \<and> fst (handleSubmit (\<lambda>c. False) (''s9'', ''2024-02-01T08:00:00Z'') (Some ''pub1'') ex_page ex_store)
       = Redirect ''/t/pub1/done''
   \<and> (\<exists>firstOption :: OptionRow.
         \<lparr>a_submission_id = ''s9'', a_question_id = ''q1'',
          a_option_id = Some (o_id firstOption), a_free_text = None\<rparr>
         \<in> set (db_answers (snd (snd
              (handleSubmit (\<lambda>c. False) (''s9'', ''2024-02-01T08:00:00Z'') (Some ''pub1'')
                 ex_page ex_store)))))
   \<and> map a_option_id (db_answers (snd (snd
         (handleSubmit (\<lambda>c. False) (''s9'', ''2024-02-01T08:00:00Z'') (Some ''pub1'')
            ex_page ex_store))))
       = [Some ''o2'', None, Some ''o1'', None]"
proof -
  let ?run = "handleSubmit (\<lambda>c. False) (''s9'', ''2024-02-01T08:00:00Z'') (Some ''pub1'')
                 ex_page ex_store"
  have h1: "distinct (map q_id (questions ex_page))"
    and h2: "ex_choice \<in> set (questions ex_page)"
    and h3: "q_kind ex_choice = SINGLE"
    and h4: "\<not> truthy (answersState ex_page (q_id ex_choice))"
    and h5: "q_options ex_choice = Some
        [\<lparr>o_id = ''o2'', o_question_id = ''q1'', o_text = ''Blue'', o_ord = Some 2\<rparr>,
         \<lparr>o_id = ''o1'', o_question_id = ''q1'', o_text = ''Red'', o_ord = Some 1\<rparr>]"
    and h6: "[\<lparr>o_id = ''o2'', o_question_id = ''q1'', o_text = ''Blue'', o_ord = Some 2\<rparr>,
         \<lparr>o_id = ''o1'', o_question_id = ''q1'', o_text = ''Red'', o_ord = Some 1\<rparr>] \<noteq> []"
    by (simp_all add: ex_page_def ex_choice_def truthy_def)
  note inst = unanswered_single_gets_first_option
    [OF h1 h2 h3 h4 h5 h6, of "\<lambda>c. False" "(''s9'', ''2024-02-01T08:00:00Z'')" "Some ''pub1''" ex_store]
  have k: "q_id ex_choice = ''q1''"
    by (simp add: ex_choice_def)
  have run: "?run = (Redirect ''/t/pub1/done'', fst (snd ?run), snd (snd ?run))"
    by (simp only: ex_submit fst_conv snd_conv)
  have e: "\<exists>firstOption :: OptionRow.
         \<lparr>a_submission_id = ''s9'', a_question_id = ''q1'',
          a_option_id = Some (o_id firstOption), a_free_text = None\<rparr>
         \<in> set (db_answers (snd (snd ?run)))"
    using inst
  proof (elim exE conjE)
    fix firstOption :: OptionRow and before after :: "OptionRow list"
    assume r: "\<forall>url page' db'. ?run = (Redirect url, page', db')
        \<longrightarrow> \<lparr>a_submission_id = fst (''s9'', ''2024-02-01T08:00:00Z''), a_question_id = q_id ex_choice,
              a_option_id = Some (o_id firstOption), a_free_text = None\<rparr>
            \<in> set (db_answers db')"
    note row = r [rule_format, OF run, unfolded k fst_conv]
    show ?thesis
      by (rule exI [where x = firstOption]) (rule row)
  qed
  have m: "map a_option_id (db_answers (snd (snd ?run))) = [Some ''o2'', None, Some ''o1'', None]"
    by (simp only: ex_submit snd_conv) (simp add: ex_store_def)
  have f: "fst ?run = Redirect ''/t/pub1/done''"
    by (simp only: ex_submit fst_conv)
  show ?thesis
    by (intro conjI h1 h2 h3 h4 f e m)
qed

section \<open>Bar data per choice question\<close>

lemma fold_groupAnswer:
  "(case fold (groupAnswer S) as m k of None \<Rightarrow> [] | Some l \<Rightarrow> l)
     = (case m k of None \<Rightarrow> [] | Some l \<Rightarrow> l)
       @ filter (\<lambda>a. a_submission_id a \<in> S \<and> a_question_id a = k) as"
proof (induction as arbitrary: m)
  case Nil
  then show ?case by simp
next
  case (Cons a as)
  show ?case
    unfolding fold_simps Cons.IH
    by (simp add: groupAnswer_def)
qed

lemma groupAnswers_filter:
  "(case groupAnswers S as k of None \<Rightarrow> [] | Some l \<Rightarrow> l)
     = filter (\<lambda>a. a_submission_id a \<in> S \<and> a_question_id a = k) as"
  unfolding groupAnswers_def fold_groupAnswer by simp

lemma findIndex_Some:
  "findIndex P xs = Some i \<Longrightarrow> i < length xs \<and> P (xs ! i)"
  by (induction xs arbitrary: i) (auto split: if_splits)

lemma findIndex_distinct:
  assumes "distinct (map f xs)" and "i < length xs"
  shows "findIndex (\<lambda>x. f x = f (xs ! i)) xs = Some i"
  using assms
proof (induction xs arbitrary: i)
  case Nil
  then show ?case by simp
next
  case (Cons x xs)
  show ?case
  proof (cases i)
    case 0
    then show ?thesis by simp
  next
    case (Suc j)
    with Cons.prems have "j < length xs" "f x \<noteq> f (xs ! j)" "distinct (map f xs)"
      by auto
    with Cons.IH [of j] Suc show ?thesis
      by simp
  qed
qed

lemma length_countAnswer: "length (countAnswer opts a counts) = length counts"
  by (simp add: countAnswer_def split: option.splits)

lemma length_fold_countAnswer: "length (fold (countAnswer opts) as counts) = length counts"
  by (induction as arbitrary: counts) (simp_all add: length_countAnswer)

lemma nth_countAnswer:
  assumes "i < length counts" and "length counts = length opts"
  shows "countAnswer opts a counts ! i
     = counts ! i
       + (if truthy (a_option_id a)
             \<and> findIndex (\<lambda>option. o_id option = the (a_option_id a)) opts = Some i
          then 1 else 0)"
  using assms
  by (auto simp: countAnswer_def nth_list_update split: option.splits dest: findIndex_Some)

lemma nth_fold_countAnswer:
  assumes "i < length counts" and "length counts = length opts"
  shows "fold (countAnswer opts) as counts ! i
     = counts ! i
       + length (filter (\<lambda>a. truthy (a_option_id a)
             \<and> findIndex (\<lambda>option. o_id option = the (a_option_id a)) opts = Some i) as)"
  using assms
proof (induction as arbitrary: counts)
  case Nil
  then show ?case by simp
next
  case (Cons a as)
  have l: "i < length (countAnswer opts a counts)" "length (countAnswer opts a counts) = length opts"
    using Cons.prems by (simp_all add: length_countAnswer)
  show ?case
    unfolding fold_simps Cons.IH [OF l] nth_countAnswer [OF Cons.prems]
    by simp
qed

lemma countAnswers_counts:
  assumes d: "distinct (map o_id opts)" and ne: "\<forall>x \<in> set opts. o_id x \<noteq> []"
  shows "countAnswers opts as
     = map (\<lambda>x. length (filter (\<lambda>a. a_option_id a = Some (o_id x)) as)) opts"
proof (rule nth_equalityI)
  show "length (countAnswers opts as)
      = length (map (\<lambda>x. length (filter (\<lambda>a. a_option_id a = Some (o_id x)) as)) opts)"
    by (simp add: countAnswers_def length_fold_countAnswer)
next
  fix i
  assume "i < length (countAnswers opts as)"
  then have i: "i < length opts"
    by (simp add: countAnswers_def length_fold_countAnswer)
  have same: "\<And>a :: AnswerRow. (truthy (a_option_id a)
             \<and> findIndex (\<lambda>option. o_id option = the (a_option_id a)) opts = Some i)
          \<longleftrightarrow> a_option_id a = Some (o_id (opts ! i))"
  proof
    fix a :: AnswerRow
    assume "truthy (a_option_id a)
             \<and> findIndex (\<lambda>option. o_id option = the (a_option_id a)) opts = Some i"
    then show "a_option_id a = Some (o_id (opts ! i))"
      by (cases "a_option_id a") (auto simp: truthy_def dest: findIndex_Some)
  next
    fix a :: AnswerRow
    assume a: "a_option_id a = Some (o_id (opts ! i))"
    have "o_id (opts ! i) \<noteq> []"
      using ne i by simp
    moreover have "findIndex (\<lambda>option. o_id option = o_id (opts ! i)) opts = Some i"
      using findIndex_distinct [OF d i] .
    ultimately show "truthy (a_option_id a)
             \<and> findIndex (\<lambda>option. o_id option = the (a_option_id a)) opts = Some i"
      by (simp add: a truthy_def)
  qed
  have "countAnswers opts as ! i
      = length (filter (\<lambda>a. truthy (a_option_id a)
             \<and> findIndex (\<lambda>option. o_id option = the (a_option_id a)) opts = Some i) as)"
    unfolding countAnswers_def
    using nth_fold_countAnswer [of i "map (\<lambda>option. 0) opts" opts as] i by simp
  also have "\<dots> = length (filter (\<lambda>a. a_option_id a = Some (o_id (opts ! i))) as)"
    by (simp only: same)
  finally show "countAnswers opts as ! i
      = map (\<lambda>x. length (filter (\<lambda>a. a_option_id a = Some (o_id x)) as)) opts ! i"
    using i by simp
qed

lemma sortedOptions_props:
  "mset (sortedOptions xs) = mset xs"
  "sorted (map (\<lambda>x. ordOrZero (o_ord x)) (sortedOptions xs))"
  "set (sortedOptions xs) = set xs"
  by (simp_all add: sortedOptions_def)

lemma distinct_ids_sortedOptions:
  assumes "distinct (map o_id os)"
  shows "distinct (map o_id (sortedOptions (filter P os)))"
proof -
  have "mset (map o_id (sortedOptions (filter P os))) = mset (map o_id (filter P os))"
    by (simp add: sortedOptions_props)
  moreover have "distinct (map o_id (filter P os))"
    using assms by (rule distinct_map_filter)
  ultimately show ?thesis
    by (metis mset_eq_imp_distinct_iff)
qed

lemma chartOf_data:
  assumes d: "distinct (map o_id os)" and ne: "\<forall>x \<in> set os. o_id x \<noteq> []"
  shows "\<exists>opts. mset opts = mset (filter (\<lambda>x. o_question_id x = q_id q) os)
       \<and> sorted (map (\<lambda>x. ordOrZero (o_ord x)) opts)
       \<and> c_question (chartOf os (groupAnswers S as) q) = q
       \<and> c_labels (chartOf os (groupAnswers S as) q) = map o_text opts
       \<and> c_data (chartOf os (groupAnswers S as) q)
           = map (\<lambda>x. length (filter (\<lambda>a. a_submission_id a \<in> S \<and> a_question_id a = q_id q
                                          \<and> a_option_id a = Some (o_id x)) as)) opts"
proof -
  let ?opts = "sortedOptions (filter (\<lambda>x. o_question_id x = q_id q) os)"
  have d': "distinct (map o_id ?opts)"
    using d by (rule distinct_ids_sortedOptions)
  have ne': "\<forall>x \<in> set ?opts. o_id x \<noteq> []"
    using ne by (simp add: sortedOptions_props)
  have "c_data (chartOf os (groupAnswers S as) q)
      = countAnswers ?opts (filter (\<lambda>a. a_submission_id a \<in> S \<and> a_question_id a = q_id q) as)"
    by (simp add: chartOf_def Let_def groupAnswers_filter)
  also have "\<dots> = map (\<lambda>x. length (filter (\<lambda>a. a_option_id a = Some (o_id x))
        (filter (\<lambda>a. a_submission_id a \<in> S \<and> a_question_id a = q_id q) as))) ?opts"
    by (rule countAnswers_counts [OF d' ne'])
  also have "\<dots> = map (\<lambda>x. length (filter (\<lambda>a. a_submission_id a \<in> S \<and> a_question_id a = q_id q
                                          \<and> a_option_id a = Some (o_id x)) as)) ?opts"
    by (simp add: conj_commute conj_left_commute)
  finally have data: "c_data (chartOf os (groupAnswers S as) q)
      = map (\<lambda>x. length (filter (\<lambda>a. a_submission_id a \<in> S \<and> a_question_id a = q_id q
                                          \<and> a_option_id a = Some (o_id x)) as)) ?opts" .
  have "mset ?opts = mset (filter (\<lambda>x. o_question_id x = q_id q) os)"
    "sorted (map (\<lambda>x. ordOrZero (o_ord x)) ?opts)"
    "c_question (chartOf os (groupAnswers S as) q) = q"
    "c_labels (chartOf os (groupAnswers S as) q) = map o_text ?opts"
    by (simp_all add: sortedOptions_props chartOf_def Let_def)
  with data show ?thesis
    by blast
qed

text \<open>
  C6. For option rows with distinct, non-empty ids, the charts of an authorized
  view are one per choice question, in the order of the questions, and none for a text
  question. The categories of a chart are the question's options sorted by \<open>ord\<close>
  (null read as 0), every option of the question appearing once; its label is the
  option's text and its count is the number of answers that belong to a filtered
  submission, to the question and to that option, so an option nobody chose has count 0
  and answers of submissions outside the filtered set are not counted.
\<close>

theorem charts_bar_data:
  assumes "distinct (map o_id os)" and "\<forall>x \<in> set os. o_id x \<noteq> []"
  shows "map c_question (charts True qs os as fs) = filter (\<lambda>q. q_kind q = SINGLE) qs
     \<and> (\<forall>c \<in> set (charts True qs os as fs).
          q_kind (c_question c) = SINGLE
          \<and> (\<exists>opts. mset opts = mset (filter (\<lambda>x. o_question_id x = q_id (c_question c)) os)
               \<and> sorted (map (\<lambda>x. ordOrZero (o_ord x)) opts)
               \<and> c_labels c = map o_text opts
               \<and> c_data c =
                   map (\<lambda>x. length (filter (\<lambda>a. a_submission_id a \<in> s_id ` set fs
                                              \<and> a_question_id a = q_id (c_question c)
                                              \<and> a_option_id a = Some (o_id x)) as)) opts))"
proof (cases "qs = []")
  case True
  then show ?thesis
    by (simp add: charts_def)
next
  case False
  let ?S = "s_id ` set fs"
  have eq: "charts True qs os as fs
      = map (chartOf os (groupAnswers ?S as)) (filter (\<lambda>q. q_kind q = SINGLE) qs)"
    using False by (simp add: charts_def Let_def)
  have q: "\<And>q. c_question (chartOf os (groupAnswers ?S as) q) = q"
    by (simp add: chartOf_def Let_def)
  have 1: "map c_question (charts True qs os as fs) = filter (\<lambda>q. q_kind q = SINGLE) qs"
    unfolding eq by (simp add: o_def q)
  have 2: "\<forall>c \<in> set (charts True qs os as fs).
          q_kind (c_question c) = SINGLE
          \<and> (\<exists>opts. mset opts = mset (filter (\<lambda>x. o_question_id x = q_id (c_question c)) os)
               \<and> sorted (map (\<lambda>x. ordOrZero (o_ord x)) opts)
               \<and> c_labels c = map o_text opts
               \<and> c_data c =
                   map (\<lambda>x. length (filter (\<lambda>a. a_submission_id a \<in> ?S
                                              \<and> a_question_id a = q_id (c_question c)
                                              \<and> a_option_id a = Some (o_id x)) as)) opts)"
  proof
    fix c
    assume "c \<in> set (charts True qs os as fs)"
    then obtain question where c: "c = chartOf os (groupAnswers ?S as) question"
      and k: "q_kind question = SINGLE"
      unfolding eq by auto
    from chartOf_data [OF assms, of question ?S as] k
    show "q_kind (c_question c) = SINGLE
          \<and> (\<exists>opts. mset opts = mset (filter (\<lambda>x. o_question_id x = q_id (c_question c)) os)
               \<and> sorted (map (\<lambda>x. ordOrZero (o_ord x)) opts)
               \<and> c_labels c = map o_text opts
               \<and> c_data c =
                   map (\<lambda>x. length (filter (\<lambda>a. a_submission_id a \<in> ?S
                                              \<and> a_question_id a = q_id (c_question c)
                                              \<and> a_option_id a = Some (o_id x)) as)) opts)"
      unfolding c q by blast
  qed
  from 1 2 show ?thesis
    by blast
qed

lemma ex_charts:
  "charts True ex_question_rows ex_option_rows ex_answer_rows ex_filtered
     = [\<lparr>c_question =
           \<lparr>q_id = ''q1'', q_test_version_id = ''v1'', q_kind = SINGLE, q_text = ''Colour?'', q_ord = Some 1\<rparr>,
         c_labels = [''X'', ''Y'', ''Z''], c_data = [2, 1, 0]\<rparr>]"
proof -
  have g: "(case groupAnswers (s_id ` set ex_filtered) ex_answer_rows ''q1'' of
              None \<Rightarrow> [] | Some list \<Rightarrow> list)
     = [\<lparr>a_submission_id = ''s1'', a_question_id = ''q1'', a_option_id = Some ''ox'', a_free_text = None\<rparr>,
        \<lparr>a_submission_id = ''s2'', a_question_id = ''q1'', a_option_id = Some ''oy'', a_free_text = None\<rparr>,
        \<lparr>a_submission_id = ''s3'', a_question_id = ''q1'', a_option_id = Some ''ox'', a_free_text = None\<rparr>]"
    unfolding groupAnswers_filter by (simp add: ex_filtered_def ex_answer_rows_def)
  have o: "sortedOptions (filter (\<lambda>option. o_question_id option = ''q1'') ex_option_rows)
     = [\<lparr>o_id = ''ox'', o_question_id = ''q1'', o_text = ''X'', o_ord = Some 1\<rparr>,
        \<lparr>o_id = ''oy'', o_question_id = ''q1'', o_text = ''Y'', o_ord = Some 2\<rparr>,
        \<lparr>o_id = ''oz'', o_question_id = ''q1'', o_text = ''Z'', o_ord = Some 3\<rparr>]"
    by (simp add: sortedOptions_def ex_option_rows_def ordOrZero_def)
  show ?thesis
    by (simp add: charts_def chartOf_def Let_def ex_question_rows_def g o countAnswers_def
          countAnswer_def truthy_def)
qed

theorem charts_bar_data_witness:
  "distinct (map o_id ex_option_rows)
   \<and> [] \<notin> o_id ` set ex_option_rows
   \<and> map c_question (charts True ex_question_rows ex_option_rows ex_answer_rows ex_filtered)
       = [\<lparr>q_id = ''q1'', q_test_version_id = ''v1'', q_kind = SINGLE, q_text = ''Colour?'',
           q_ord = Some 1\<rparr>]
   \<and> charts True ex_question_rows ex_option_rows ex_answer_rows ex_filtered
       = [\<lparr>c_question =
             \<lparr>q_id = ''q1'', q_test_version_id = ''v1'', q_kind = SINGLE, q_text = ''Colour?'',
              q_ord = Some 1\<rparr>,
           c_labels = [''X'', ''Y'', ''Z''], c_data = [2, 1, 0]\<rparr>]"
proof -
  have d: "distinct (map o_id ex_option_rows)"
    by (simp add: ex_option_rows_def)
  have ne: "\<forall>x \<in> set ex_option_rows. o_id x \<noteq> []"
    by (simp add: ex_option_rows_def)
  have ne': "[] \<notin> o_id ` set ex_option_rows"
    by (simp add: ex_option_rows_def)
  from charts_bar_data [OF d ne, of ex_question_rows ex_answer_rows ex_filtered]
  have "map c_question (charts True ex_question_rows ex_option_rows ex_answer_rows ex_filtered)
      = filter (\<lambda>q. q_kind q = SINGLE) ex_question_rows"
    by (rule conjunct1)
  then have q: "map c_question (charts True ex_question_rows ex_option_rows ex_answer_rows ex_filtered)
       = [\<lparr>q_id = ''q1'', q_test_version_id = ''v1'', q_kind = SINGLE, q_text = ''Colour?'',
           q_ord = Some 1\<rparr>]"
    by (simp add: ex_question_rows_def)
  show ?thesis
    by (intro conjI d ne' q ex_charts)
qed

section \<open>Date filter and slug\<close>

text \<open>
  The bounds of the date filter. In a time zone at or east of UTC the UTC midnight
  of the chosen day lies in that local day, so \<open>setHours\<close> gives the chosen local
  day's start or end and the filter is the inclusive local-day range. West of UTC the
  UTC midnight is still the evening before in local time, and both bounds fall one
  local day early.
\<close>

lemma setHours_east:
  assumes "0 \<le> utcOffset" and "utcOffset < msPerDay"
  shows "setHours utcOffset h m s ms (dateOnly day)
     = day * msPerDay + (h * 3600000 + m * 60000 + s * 1000 + ms) - utcOffset"
proof -
  have "(day * msPerDay + utcOffset) div msPerDay = day"
    using assms by (simp add: msPerDay_def)
  then show ?thesis
    by (simp add: setHours_def dateOnly_def)
qed

lemma setHours_west:
  assumes "utcOffset < 0" and "- msPerDay \<le> utcOffset"
  shows "setHours utcOffset h m s ms (dateOnly day)
     = (day - 1) * msPerDay + (h * 3600000 + m * 60000 + s * 1000 + ms) - utcOffset"
proof -
  have e: "day * msPerDay + utcOffset = (day - 1) * msPerDay + (msPerDay + utcOffset)"
    by (simp add: algebra_simps)
  have "((day - 1) * msPerDay + (msPerDay + utcOffset)) div msPerDay = day - 1"
    using assms by (simp add: msPerDay_def)
  then have "(day * msPerDay + utcOffset) div msPerDay = day - 1"
    by (simp only: e)
  then show ?thesis
    by (simp add: setHours_def dateOnly_def)
qed

lemma date_filter_east_of_utc:
  assumes "0 \<le> utcOffset" and "utcOffset < msPerDay"
  shows "passesFilters utcOffset getTime toLowerCase (Some dayFrom) (Some dayTo) [] submission
     \<longleftrightarrow> dayFrom * msPerDay \<le> getTime (s_created_at submission) + utcOffset
         \<and> getTime (s_created_at submission) + utcOffset
             \<le> dayTo * msPerDay + (23 * 3600000 + 59 * 60000 + 59 * 1000 + 999)"
  by (auto simp: passesFilters_def Let_def trim_def setHours_east [OF assms])

lemma date_filter_west_of_utc:
  assumes "utcOffset < 0" and "- msPerDay \<le> utcOffset"
  shows "passesFilters utcOffset getTime toLowerCase (Some dayFrom) (Some dayTo) [] submission
     \<longleftrightarrow> (dayFrom - 1) * msPerDay \<le> getTime (s_created_at submission) + utcOffset
         \<and> getTime (s_created_at submission) + utcOffset
             \<le> (dayTo - 1) * msPerDay + (23 * 3600000 + 59 * 60000 + 59 * 1000 + 999)"
  by (auto simp: passesFilters_def Let_def trim_def setHours_west [OF assms])

text \<open>
  C7. The filter at UTC-5 with \<open>dateTo\<close> 2024-01-15 (day 19737): a submission
  created at local 23:59:59 of that day, the instant 1705381199000, is compared with
  the bound 1705294799999, which is 23:59:59.999 of the local day before, and is
  filtered out, where the inclusive local-day range keeps it. At UTC+3 the submission
  of local 23:59:59 of \<open>dateTo\<close> is kept.
\<close>

theorem filteredSubmissions_west_of_utc:
  "(1705381199000 + (- 18000000)) div msPerDay = 19737
   \<and> (1705381199000 + (- 18000000)) mod msPerDay = 23 * 3600000 + 59 * 60000 + 59 * 1000
   \<and> setHours (- 18000000) 23 59 59 999 (dateOnly 19737) = 1705294799999
   \<and> filteredSubmissions (- 18000000) (\<lambda>s. 1705381199000) (\<lambda>s. s) [ex_submission]
        None (Some 19737) []
       = []
   \<and> filteredSubmissions 10800000 (\<lambda>s. 1705352399000) (\<lambda>s. s) [ex_submission]
        None (Some 19737) []
       = [ex_submission]"
  by (simp add: filteredSubmissions_def passesFilters_def setHours_def dateOnly_def msPerDay_def
        trim_def)


























end
